theory Spec2Isabelle
  imports Main
begin

section \<open>Strings of the lub library\<close>

text \<open>
  A C string pointer is a \<open>string option\<close>: \<open>None\<close> is the null pointer, \<open>Some s\<close> a
  zero-terminated string with the characters \<open>s\<close>.
\<close>

text \<open>
  Modelled from the spec: \<open>lub_string_catn\<close> and \<open>lub_string_cat\<close> (lub/string) are
  called by \<open>clish_shell_tilde_expand\<close> and are not part of shell\_spawn.c. The spec
  (4.1) has the expander build its result from pieces of the path and the home value,
  with an unresolvable home contributing nothing. \<open>lub_string_catn r t n\<close> appends
  at most \<open>n\<close> characters of \<open>t\<close> to \<open>r\<close> (allocating \<open>r\<close> when it is null); a
  null \<open>t\<close> leaves \<open>r\<close> as it is. The length is a \<open>size_t\<close>, so a negative \<open>int\<close>
  would arrive as a huge length and copy all of \<open>t\<close>.
\<close>

definition lub_string_catn :: "string option \<Rightarrow> string option \<Rightarrow> int \<Rightarrow> string option" where
  "lub_string_catn result text len =
     (case text of
        None \<Rightarrow> result
      | Some t \<Rightarrow>
          Some ((case result of None \<Rightarrow> [] | Some r \<Rightarrow> r)
                @ take (if len < 0 then length t else nat len) t))"

definition lub_string_cat :: "string option \<Rightarrow> string option \<Rightarrow> string option" where
  "lub_string_cat result text =
     (case text of
        None \<Rightarrow> result
      | Some t \<Rightarrow> lub_string_catn result text (int (length t)))"

section \<open>Tilde expansion\<close>

text \<open>
  The \<open>while (*p)\<close> loop of \<open>clish_shell_tilde_expand\<close>. The list argument is what
  is left of the path from \<open>p\<close> on; \<open>segment\<close> is kept as an offset into \<open>path\<close>,
  \<open>count\<close> is the C \<open>int\<close> (it never exceeds the length of the path, which for an
  environment value is far below \<open>2^31\<close>). The first equation is the code after the
  loop.
\<close>

fun tilde_scan ::
  "string option \<Rightarrow> string \<Rightarrow> string \<Rightarrow> nat \<Rightarrow> int \<Rightarrow> string option \<Rightarrow> string option" where
  "tilde_scan home_dir path [] segment count result =
     (if count \<noteq> 0 then lub_string_catn result (Some (drop segment path)) count
      else result)"
| "tilde_scan home_dir path (c # p) segment count result =
     (if c = CHR ''~'' then
        (if count \<noteq> 0 then
           tilde_scan home_dir path p (segment + nat (count + 1)) (- 1 + 1)
             (lub_string_cat
                (lub_string_catn result (Some (drop segment path)) count) home_dir)
         else
           tilde_scan home_dir path p segment (count + 1)
             (lub_string_cat result home_dir))
      else tilde_scan home_dir path p segment (count + 1) result)"

text \<open>\<open>home_dir\<close> is the value of \<open>getenv("HOME")\<close>.\<close>

definition clish_shell_tilde_expand :: "string option \<Rightarrow> string \<Rightarrow> string option" where
  "clish_shell_tilde_expand home_dir path = tilde_scan home_dir path path 0 0 None"

text \<open>
  What the spec asks of the expander: every \<open>~\<close> becomes the home value (nothing when
  there is none), every other character stays.
\<close>

definition tilde_replaced :: "string option \<Rightarrow> string \<Rightarrow> string" where
  "tilde_replaced home_dir path =
     concat (map (\<lambda>c. if c = CHR ''~'' then (case home_dir of None \<Rightarrow> [] | Some h \<Rightarrow> h)
                      else [c]) path)"

text \<open>
  The paths whose every \<open>~\<close> has a character other than \<open>~\<close> right before it. The
  flag says whether the character before the rest of the path is such a one.
\<close>

fun tokens_preceded :: "bool \<Rightarrow> string \<Rightarrow> bool" where
  "tokens_preceded before [] = True"
| "tokens_preceded before (c # cs) =
     (if c = CHR ''~'' then before \<and> tokens_preceded False cs else tokens_preceded True cs)"

text \<open>The characters of a C string, none for the null pointer.\<close>

definition chars_of :: "string option \<Rightarrow> string" where
  "chars_of p = (case p of None \<Rightarrow> [] | Some cs \<Rightarrow> cs)"

section \<open>Configuration discovery\<close>

text \<open>If \<open>CLISH_PATH\<close> is unset in the environment then this is the value used.\<close>

definition default_path :: string where
  "default_path = ''/etc/clish;~/.clish''"

text \<open>
  \<open>strrchr s c\<close>: the part of \<open>s\<close> from the last occurrence of \<open>c\<close> on, null when
  \<open>c\<close> does not occur.
\<close>

fun strrchr :: "string \<Rightarrow> char \<Rightarrow> string option" where
  "strrchr [] c = None"
| "strrchr (x # xs) c =
     (case strrchr xs c of
        Some r \<Rightarrow> Some r
      | None \<Rightarrow> if x = c then Some (x # xs) else None)"

text \<open>
  The tokens that the calls \<open>strtok(buffer, delim)\<close>, \<open>strtok(NULL, delim)\<close>, ...
  return until the null pointer: the maximal runs of characters that are not in
  \<open>delim\<close>. The second argument is the token being collected.
\<close>

fun strtok_scan :: "string \<Rightarrow> string \<Rightarrow> string \<Rightarrow> string list" where
  "strtok_scan delim tok [] = (if tok = [] then [] else [tok])"
| "strtok_scan delim tok (c # cs) =
     (if c \<in> set delim then
        (if tok = [] then strtok_scan delim [] cs else tok # strtok_scan delim [] cs)
      else strtok_scan delim (tok @ [c]) cs)"

definition strtok_all :: "string \<Rightarrow> string \<Rightarrow> string list" where
  "strtok_all buffer delim = strtok_scan delim [] buffer"

text \<open>
  The inner \<open>for\<close> loop over the entries that \<open>readdir\<close> yields for one directory.
  \<open>xml_read\<close> stands for the collaborator \<open>clish_shell_xml_read\<close>, which gets the
  session and the file name and returns a flag that the loop throws away.
\<close>

fun load_entries ::
  "('s \<Rightarrow> string option \<Rightarrow> bool \<times> 's) \<Rightarrow> string \<Rightarrow> string list \<Rightarrow> 's \<Rightarrow> 's" where
  "load_entries xml_read dirname [] this = this"
| "load_entries xml_read dirname (d_name # entries) this =
     (case strrchr d_name CHR ''.'' of
        None \<Rightarrow> load_entries xml_read dirname entries this
      | Some extension \<Rightarrow>
          if ''.xml'' = extension then
            (let filename = lub_string_cat None (Some dirname);
                 filename = lub_string_cat filename (Some ''/'');
                 filename = lub_string_cat filename (Some d_name)
             in load_entries xml_read dirname entries (snd (xml_read this filename)))
          else load_entries xml_read dirname entries this)"

text \<open>
  The outer \<open>for\<close> loop over the directories of the path. \<open>dir_entries d\<close> is
  \<open>None\<close> when \<open>opendir\<close> fails on \<open>d\<close>, and otherwise the names that \<open>readdir\<close>
  yields, in its order.
\<close>

fun load_dirs ::
  "(string \<Rightarrow> string list option) \<Rightarrow> ('s \<Rightarrow> string option \<Rightarrow> bool \<times> 's) \<Rightarrow>
   string list \<Rightarrow> 's \<Rightarrow> 's" where
  "load_dirs dir_entries xml_read [] this = this"
| "load_dirs dir_entries xml_read (dirname # dirnames) this =
     (case dir_entries dirname of
        None \<Rightarrow> load_dirs dir_entries xml_read dirnames this
      | Some entries \<Rightarrow>
          load_dirs dir_entries xml_read dirnames
            (load_entries xml_read dirname entries this))"

definition search_path :: "(string \<Rightarrow> string option) \<Rightarrow> string" where
  "search_path getenv =
     (case getenv ''CLISH_PATH'' of None \<Rightarrow> default_path | Some path \<Rightarrow> path)"

text \<open>
  \<open>clish_shell_load_files\<close>. When the expanded path is the null pointer (an empty
  \<open>CLISH_PATH\<close>), the first call is \<open>strtok(NULL, ";")\<close>, whose behaviour C leaves
  open: the model gives no result there.
\<close>

definition clish_shell_load_files ::
  "(string \<Rightarrow> string option) \<Rightarrow> (string \<Rightarrow> string list option) \<Rightarrow>
   ('s \<Rightarrow> string option \<Rightarrow> bool \<times> 's) \<Rightarrow> 's \<Rightarrow> 's option" where
  "clish_shell_load_files getenv dir_entries xml_read this =
     (let path = search_path getenv;
          buffer = clish_shell_tilde_expand (getenv ''HOME'') path
      in case buffer of
           None \<Rightarrow> None
         | Some b \<Rightarrow> Some (load_dirs dir_entries xml_read (strtok_all b '';'') this))"

section \<open>The session and its environment\<close>

text \<open>
  Modelled from the spec: the enumeration of the session states is declared in
  private.h, not in shell\_spawn.c. Spec 3 and 4.4 give a session the three states
  READY, SCRIPT\_ERROR and CLOSING; they are the ones that shell\_spawn.c tests and
  assigns.
\<close>

datatype shell_state = SHELL_STATE_READY | SHELL_STATE_SCRIPT_ERROR | SHELL_STATE_CLOSING

text \<open>
  A \<open>FILE *\<close> is an index into the table of stream objects of the process, a file
  descriptor an index into its descriptor table. An open stream holds its
  descriptor; several streams can sit on one descriptor (that is what \<open>fdopen\<close>
  makes). What can be read from a descriptor is a sequence of command lines, and all
  the loop ever sees of a line is whether its dispatch passes or fails.
\<close>

type_synonym FILE = nat
type_synonym fd = nat
type_synonym pthread_attr_t = nat

datatype dispatch = Passes | Fails

record descriptor =
  d_tty :: bool
  d_lines :: "dispatch list"

text \<open>
  Modelled from the spec: \<open>clish_shell_t\<close> is declared in private.h, not in
  shell\_spawn.c. The first five fields are the part of it and of its \<open>tinyrl\<close> that
  the code reads and writes, with the data of spec 3: \<open>state\<close>, the input stream and
  the tty flag of the line editor, the stack of input sources (each a stream with the
  flag it was pushed with, the top first), and whether \<open>pthread\<close> names a worker
  that was created and not yet joined. The other fields are the process around the
  session: its streams, its descriptors, the files that \<open>fopen\<close> can open for
  reading, and whether a cancellation request is pending for the worker. A \<open>bool_t\<close>
  is a \<open>bool\<close>; where a function returns it as an \<open>int\<close>, \<open>BOOL_TRUE\<close> is 1 and
  \<open>BOOL_FALSE\<close> is 0.
\<close>

record clish_shell =
  state :: shell_state
  istream :: FILE
  isatty :: bool
  current_file :: "(FILE \<times> bool) list"
  pthread :: bool
  streams :: "fd option list"
  descriptors :: "descriptor option list"
  disk :: "string \<Rightarrow> descriptor option"
  cancel_requested :: bool

subsection \<open>The C library\<close>

definition fileno :: "clish_shell \<Rightarrow> FILE \<Rightarrow> fd option" where
  "fileno s f = (if f < length (streams s) then streams s ! f else None)"

definition descriptor_of :: "clish_shell \<Rightarrow> fd \<Rightarrow> descriptor option" where
  "descriptor_of s d = (if d < length (descriptors s) then descriptors s ! d else None)"

text \<open>\<open>fdopen\<close> makes a new stream on an open descriptor and fails on any other.\<close>

definition fdopen :: "fd option \<Rightarrow> clish_shell \<Rightarrow> FILE option \<times> clish_shell" where
  "fdopen d s =
     (case d of
        None \<Rightarrow> (None, s)
      | Some n \<Rightarrow>
          (case descriptor_of s n of
             None \<Rightarrow> (None, s)
           | Some e \<Rightarrow> (Some (length (streams s)), s\<lparr>streams := streams s @ [Some n]\<rparr>)))"

text \<open>\<open>fopen(filename, "r")\<close> makes a new descriptor and a new stream on it.\<close>

definition fopen :: "string \<Rightarrow> clish_shell \<Rightarrow> FILE option \<times> clish_shell" where
  "fopen filename s =
     (case disk s filename of
        None \<Rightarrow> (None, s)
      | Some e \<Rightarrow>
          (Some (length (streams s)),
           s\<lparr>streams := streams s @ [Some (length (descriptors s))],
             descriptors := descriptors s @ [Some e]\<rparr>))"

text \<open>\<open>fclose\<close> ends the stream and closes the descriptor under it.\<close>

definition fclose :: "FILE \<Rightarrow> clish_shell \<Rightarrow> clish_shell" where
  "fclose f s =
     (case fileno s f of
        None \<Rightarrow> s
      | Some d \<Rightarrow> s\<lparr>streams := (streams s)[f := None],
                     descriptors := (descriptors s)[d := None]\<rparr>)"

definition PTHREAD_CANCELED :: int where
  "PTHREAD_CANCELED = - 1"

subsection \<open>The line editor\<close>

text \<open>
  Modelled from the spec: the accessors of tinyrl are not part of shell\_spawn.c. The
  spec has the line editor supply the input and the tty detection, and has a source
  that is made the input become the active one: setting the stream also sets the tty
  flag from the descriptor under it.
\<close>

definition tinyrl__get_istream :: "clish_shell \<Rightarrow> FILE" where
  "tinyrl__get_istream s = istream s"

definition tinyrl__get_isatty :: "clish_shell \<Rightarrow> bool" where
  "tinyrl__get_isatty s = isatty s"

definition tinyrl__set_istream :: "FILE \<Rightarrow> clish_shell \<Rightarrow> clish_shell" where
  "tinyrl__set_istream f s =
     s\<lparr>istream := f,
       isatty := (case fileno s f of
                    None \<Rightarrow> False
                  | Some d \<Rightarrow> (case descriptor_of s d of None \<Rightarrow> False | Some e \<Rightarrow> d_tty e))\<rparr>"

subsection \<open>The collaborators of the loop\<close>

text \<open>
  \<open>clish_shell_readline\<close>, \<open>clish_shell_push_file\<close> and \<open>clish_shell_pop_file\<close> are
  called by the loop and defined elsewhere; \<open>pthread_create\<close> answers with 0 or an
  error number. The functions of shell\_spawn.c take them as parameters, so that what
  is proved of the loop holds whatever they do to the session.

  In a worker the three calls can also end the thread. The worker's cancellation is
  deferred (\<open>PTHREAD_CANCEL_DEFERRED\<close>), so a request is acted on at the next
  cancellation point the worker reaches, and there are such points inside the calls:
  the read that waits for a line, the close of a stream, the output of a command.
  \<open>cancelled_in c call s\<close> is \<open>Some s'\<close> when a worker that makes the call on the
  session \<open>s\<close> is ended inside it, leaving the session \<open>s'\<close>, and \<open>None\<close> when the
  call returns. When and where a request arrives is up to the canceller, so this too
  is a parameter. It plays no part in a run in the caller.
\<close>

datatype call = In_push_file | In_readline | In_pop_file

record collaborators =
  readline :: "clish_shell \<Rightarrow> bool \<times> clish_shell"
  push_file :: "FILE option \<Rightarrow> bool \<Rightarrow> clish_shell \<Rightarrow> bool \<times> clish_shell"
  pop_file :: "clish_shell \<Rightarrow> bool \<times> clish_shell"
  pthread_create :: "pthread_attr_t option \<Rightarrow> clish_shell \<Rightarrow> int"
  cancelled_in :: "call \<Rightarrow> clish_shell \<Rightarrow> clish_shell option"

text \<open>
  Modelled from the spec: \<open>clish_shell_push_file\<close> is not part of shell\_spawn.c.
  Spec 4.3: Push(source, owns) pushes a new input source, which becomes the active
  read source at once. Nothing is pushed for a null stream.
\<close>

definition clish_shell_push_file :: "FILE option \<Rightarrow> bool \<Rightarrow> clish_shell \<Rightarrow> bool \<times> clish_shell" where
  "clish_shell_push_file file owns s =
     (case file of
        None \<Rightarrow> (False, s)
      | Some f \<Rightarrow> (True, tinyrl__set_istream f (s\<lparr>current_file := (f, owns) # current_file s\<rparr>)))"

text \<open>
  Modelled from the spec: \<open>clish_shell_pop_file\<close> is not part of shell\_spawn.c.
  Spec 4.3: Pop removes the top source, closing its underlying resource iff it was
  owned; it returns false exactly when the stack is empty after the pop, and
  otherwise leaves the previous entry active.
\<close>

definition clish_shell_pop_file :: "clish_shell \<Rightarrow> bool \<times> clish_shell" where
  "clish_shell_pop_file s =
     (case current_file s of
        [] \<Rightarrow> (False, s)
      | (f, owns) # rest \<Rightarrow>
          (let s = (if owns then fclose f s else s)\<lparr>current_file := rest\<rparr>
           in case rest of
                [] \<Rightarrow> (False, s)
              | (g, owns') # older \<Rightarrow> (True, tinyrl__set_istream g s)))"

text \<open>
  Modelled from the spec: \<open>clish_shell_readline\<close> is not part of shell\_spawn.c.
  Spec 4.4, 4.5 (3b) and 6: one line is read from the active source and dispatched;
  the end of the stream is reported as "no more input" (false) without a dispatch; a
  line whose execution fails moves the state to \<open>SCRIPT_ERROR\<close>, a line that
  succeeds leaves it.
\<close>

definition clish_shell_readline :: "clish_shell \<Rightarrow> bool \<times> clish_shell" where
  "clish_shell_readline s =
     (case fileno s (tinyrl__get_istream s) of
        None \<Rightarrow> (False, s)
      | Some d \<Rightarrow>
          (case descriptor_of s d of
             None \<Rightarrow> (False, s)
           | Some e \<Rightarrow>
               (case d_lines e of
                  [] \<Rightarrow> (False, s)
                | l # ls \<Rightarrow>
                    (True,
                     s\<lparr>descriptors := (descriptors s)[d := Some (e\<lparr>d_lines := ls\<rparr>)],
                       state := (case l of Passes \<Rightarrow> state s
                                 | Fails \<Rightarrow> SHELL_STATE_SCRIPT_ERROR)\<rparr>))))"

text \<open>
  The collaborators as the spec describes them. Threads can be created, and (spec
  4.5) no cancellation lands inside a call.
\<close>

definition engine :: collaborators where
  "engine =
     \<lparr>readline = clish_shell_readline,
      push_file = clish_shell_push_file,
      pop_file = clish_shell_pop_file,
      pthread_create = (\<lambda>attr s. 0),
      cancelled_in = (\<lambda>call s. None)\<rparr>"

section \<open>The read-execute loop\<close>

text \<open>
  A cancellation that is acted on, at a call of \<open>pthread_testcancel\<close> with a request
  pending or at a cancellation point inside a collaborator, ends the thread there and
  then: nothing after it in the function runs, in no caller either. Such an end is
  \<open>Cancelled\<close> with the session as it was left; \<open>Returns\<close> is the ordinary return
  of a function.
\<close>

datatype 'a thread_step = Cancelled clish_shell | Returns 'a

text \<open>
  One pass through the body of \<open>while (running)\<close>, up to the cancellation test, in
  a run in the caller: every call returns.
\<close>

definition loop_body :: "collaborators \<Rightarrow> bool \<Rightarrow> clish_shell \<Rightarrow> bool \<times> clish_shell" where
  "loop_body c running this =
     (let this = (if state this = SHELL_STATE_SCRIPT_ERROR \<and> tinyrl__get_isatty this = True
                  then this\<lparr>state := SHELL_STATE_READY\<rparr> else this);
          (running, this) = (if state this \<noteq> SHELL_STATE_SCRIPT_ERROR
                             then readline c this else (running, this));
          (running, this) = (if running = False \<or> state this = SHELL_STATE_SCRIPT_ERROR
                             then pop_file c this else (running, this))
      in (running, this))"

text \<open>
  The same pass in a worker: the same statements, where the call of readline and the
  call of the pop can each end the thread instead of returning.
\<close>

definition worker_pass ::
  "collaborators \<Rightarrow> bool \<Rightarrow> clish_shell \<Rightarrow> (bool \<times> clish_shell) thread_step" where
  "worker_pass c running this =
     (let this = (if state this = SHELL_STATE_SCRIPT_ERROR \<and> tinyrl__get_isatty this = True
                  then this\<lparr>state := SHELL_STATE_READY\<rparr> else this)
      in case (if state this \<noteq> SHELL_STATE_SCRIPT_ERROR
               then (case cancelled_in c In_readline this of
                       Some left \<Rightarrow> Cancelled left
                     | None \<Rightarrow> Returns (readline c this))
               else Returns (running, this)) of
           Cancelled left \<Rightarrow> Cancelled left
         | Returns (running, this) \<Rightarrow>
             (if running = False \<or> state this = SHELL_STATE_SCRIPT_ERROR
              then (case cancelled_in c In_pop_file this of
                      Some left \<Rightarrow> Cancelled left
                    | None \<Rightarrow> Returns (pop_file c this))
              else Returns (running, this)))"

text \<open>
  The \<open>while\<close> loop. An interactive session can go on for ever, so the loop gets
  fuel, one unit for each pass, and has no result when the fuel runs out. In a worker
  the pass is the worker's, and \<open>pthread_testcancel\<close> at its end acts on a pending
  request; in the caller the pass is \<open>loop_body\<close> and nothing is tested.
\<close>

fun loop_while ::
  "collaborators \<Rightarrow> bool \<Rightarrow> nat \<Rightarrow> bool \<Rightarrow> clish_shell \<Rightarrow> clish_shell thread_step option" where
  "loop_while c is_thread 0 running this = (if running then None else Some (Returns this))"
| "loop_while c is_thread (Suc fuel) running this =
     (if running then
        (if is_thread then
           (case worker_pass c running this of
              Cancelled left \<Rightarrow> Some (Cancelled left)
            | Returns (running, this) \<Rightarrow>
                if cancel_requested this then Some (Cancelled this)
                else loop_while c is_thread fuel running this)
         else
           (let (running, this) = loop_body c running this
            in loop_while c is_thread fuel running this))
      else Some (Returns this))"

text \<open>The start of \<open>_loop\<close>: the default input stream is opened and pushed.\<close>

definition push_default :: "collaborators \<Rightarrow> clish_shell \<Rightarrow> clish_shell" where
  "push_default c this =
     (let (file, this) = fdopen (fileno this (tinyrl__get_istream this)) this
      in snd (push_file c file True this))"

text \<open>
  \<open>_loop\<close>. The session pointer is \<open>None\<close> when it is null. In a worker the
  opening and pushing of the default input can end the thread, as the calls of a pass
  can.
\<close>

definition loop ::
  "collaborators \<Rightarrow> nat \<Rightarrow> clish_shell option \<Rightarrow> bool \<Rightarrow>
   (bool \<times> clish_shell option) thread_step option" where
  "loop c fuel this is_thread =
     (case this of
        None \<Rightarrow> Some (Returns (True, None))
      | Some s \<Rightarrow>
          if state s \<noteq> SHELL_STATE_CLOSING then
            (case (if is_thread then cancelled_in c In_push_file s else None) of
               Some left \<Rightarrow> Some (Cancelled left)
             | None \<Rightarrow>
                 (let s = push_default c s
                  in if is_thread \<and> cancel_requested s then Some (Cancelled s)
                     else (case loop_while c is_thread fuel True s of
                             None \<Rightarrow> None
                           | Some (Cancelled s') \<Rightarrow> Some (Cancelled s')
                           | Some (Returns s') \<Rightarrow> Some (Returns (True, Some s')))))
          else Some (Returns (True, Some s)))"

definition clish_shell_loop ::
  "collaborators \<Rightarrow> nat \<Rightarrow> clish_shell option \<Rightarrow> (bool \<times> clish_shell option) thread_step option" where
  "clish_shell_loop c fuel this = loop c fuel this False"

section \<open>The worker thread\<close>

text \<open>Outside VxWorks the cleanup handler has an empty body.\<close>

definition clish_shell_thread_cleanup :: "clish_shell \<Rightarrow> clish_shell" where
  "clish_shell_thread_cleanup this = this"

text \<open>
  The thread function, with the value that \<open>pthread_join\<close> gets from it: the
  pointer \<open>(void *)BOOL_TRUE\<close> when it returns, \<open>PTHREAD_CANCELED\<close> when it is
  cancelled. The cleanup handler runs in both cases.
\<close>

definition clish_shell_thread ::
  "collaborators \<Rightarrow> nat \<Rightarrow> clish_shell option \<Rightarrow> (int \<times> clish_shell option) option" where
  "clish_shell_thread c fuel arg =
     (case arg of
        None \<Rightarrow> Some (1, None)
      | Some this \<Rightarrow>
          (case loop c fuel (Some this) True of
             None \<Rightarrow> None
           | Some (Cancelled s) \<Rightarrow> Some (PTHREAD_CANCELED, Some (clish_shell_thread_cleanup s))
           | Some (Returns (r, s)) \<Rightarrow> Some (1, map_option clish_shell_thread_cleanup s)))"

definition clish_shell_spawn ::
  "collaborators \<Rightarrow> clish_shell option \<Rightarrow> pthread_attr_t option \<Rightarrow> int \<times> clish_shell option" where
  "clish_shell_spawn c this attr =
     (case this of
        None \<Rightarrow> (- 1, None)
      | Some s \<Rightarrow>
          (let rc = pthread_create c attr s
           in (rc, Some (if rc = 0 then s\<lparr>pthread := True\<rparr> else s))))"

text \<open>
  \<open>clish_shell_wait\<close>. The worker runs on its own between the spawn and the join;
  the model places its whole run at the join, which waits for its end. Joining when
  \<open>pthread\<close> names no thread fails and leaves \<open>result\<close> the null pointer it was
  initialised to.
\<close>

definition clish_shell_wait ::
  "collaborators \<Rightarrow> nat \<Rightarrow> clish_shell option \<Rightarrow> (int \<times> clish_shell option) option" where
  "clish_shell_wait c fuel this =
     (case this of
        None \<Rightarrow> Some (0, None)
      | Some s \<Rightarrow>
          if pthread s then
            (case clish_shell_thread c fuel (Some s) of
               None \<Rightarrow> None
             | Some (result, s') \<Rightarrow>
                 Some (if result \<noteq> 0 then 1 else 0, map_option (\<lambda>t. t\<lparr>pthread := False\<rparr>) s'))
          else Some (0, Some s))"

definition clish_shell_spawn_and_wait ::
  "collaborators \<Rightarrow> nat \<Rightarrow> clish_shell option \<Rightarrow> pthread_attr_t option \<Rightarrow>
   (int \<times> clish_shell option) option" where
  "clish_shell_spawn_and_wait c fuel this attr =
     (let (rc, this) = clish_shell_spawn c this attr
      in if rc < 0 then Some (- 1, this) else clish_shell_wait c fuel this)"

section \<open>Running from a file\<close>

text \<open>\<open>_from_file\<close>. The file name pointer is \<open>None\<close> when it is null.\<close>

definition from_file ::
  "collaborators \<Rightarrow> nat \<Rightarrow> clish_shell option \<Rightarrow> bool \<Rightarrow> pthread_attr_t option \<Rightarrow>
   string option \<Rightarrow> (bool \<times> clish_shell option) thread_step option" where
  "from_file c fuel this is_thread attr filename =
     (case this of
        None \<Rightarrow> Some (Returns (False, None))
      | Some s \<Rightarrow>
          (case filename of
             None \<Rightarrow> Some (Returns (False, Some s))
           | Some name \<Rightarrow>
               (let (file, s) = fopen name s
                in case file of
                     None \<Rightarrow> Some (Returns (False, Some s))
                   | Some f \<Rightarrow>
                       (let s = tinyrl__set_istream f s
                        in if is_thread then
                             (case clish_shell_spawn_and_wait c fuel (Some s) attr of
                                None \<Rightarrow> None
                              | Some (r, s') \<Rightarrow>
                                  Some (Returns (r \<noteq> 0, map_option (fclose f) s')))
                           else
                             (case clish_shell_loop c fuel (Some s) of
                                None \<Rightarrow> None
                              | Some (Cancelled s') \<Rightarrow> Some (Cancelled s')
                              | Some (Returns (r, s')) \<Rightarrow>
                                  Some (Returns (r, map_option (fclose f) s')))))))"

definition clish_shell_spawn_from_file ::
  "collaborators \<Rightarrow> nat \<Rightarrow> clish_shell option \<Rightarrow> pthread_attr_t option \<Rightarrow> string option \<Rightarrow>
   (bool \<times> clish_shell option) thread_step option" where
  "clish_shell_spawn_from_file c fuel this attr filename =
     from_file c fuel this True attr filename"

definition clish_shell_from_file ::
  "collaborators \<Rightarrow> nat \<Rightarrow> clish_shell option \<Rightarrow> string option \<Rightarrow>
   (bool \<times> clish_shell option) thread_step option" where
  "clish_shell_from_file c fuel this filename = from_file c fuel this False None filename"

section \<open>Concrete environments and sessions\<close>

text \<open>
  An environment with \<open>HOME\<close> set and no \<open>CLISH_PATH\<close>, a file system where only
  \<open>/etc/clish\<close> can be opened, and a loader that fails on every file and records the
  names it is given.
\<close>

definition example_getenv :: "string \<Rightarrow> string option" where
  "example_getenv v = (if v = ''HOME'' then Some ''/home/u'' else None)"

definition example_dir_entries :: "string \<Rightarrow> string list option" where
  "example_dir_entries d =
     (if d = ''/etc/clish''
      then Some [''.'', ''..'', ''foo.xml'', ''foo.xml.bak'', ''foo.XML'', ''bar.xml'']
      else None)"

definition failing_loader :: "string option list \<Rightarrow> string option \<Rightarrow> bool \<times> string option list" where
  "failing_loader seen filename = (False, seen @ [filename])"

text \<open>
  A session before its first run: the input of the line editor is stream 0 on
  descriptor 0, a terminal or not, with the given lines waiting to be read. Nothing
  is on the file stack, no worker exists, no file can be opened, no cancellation is
  pending.
\<close>

definition session :: "bool \<Rightarrow> dispatch list \<Rightarrow> clish_shell" where
  "session tty lines =
     \<lparr>state = SHELL_STATE_READY, istream = 0, isatty = tty, current_file = [],
      pthread = False, streams = [Some 0],
      descriptors = [Some \<lparr>d_tty = tty, d_lines = lines\<rparr>],
      disk = (\<lambda>name. None), cancel_requested = False\<rparr>"

text \<open>
  The same session where \<open>fopen\<close> can open one file, \<open>run.clish\<close>, a script of three
  lines whose second line fails.
\<close>

definition script_disk :: "string \<Rightarrow> descriptor option" where
  "script_disk name =
     (if name = ''run.clish'' then Some \<lparr>d_tty = False, d_lines = [Passes, Fails, Passes]\<rparr>
      else None)"

definition session_with_script :: clish_shell where
  "session_with_script = (session True [])\<lparr>disk := script_disk\<rparr>"

text \<open>
  A terminal session in the middle of a run: the default input (stream 1 on the
  terminal's descriptor 0) is on the stack, a script (stream 2 on descriptor 1) has
  been pushed on top of it, and a line of the script has just failed.
\<close>

definition failed_script_on_terminal :: clish_shell where
  "failed_script_on_terminal =
     \<lparr>state = SHELL_STATE_SCRIPT_ERROR, istream = 2, isatty = False,
      current_file = [(2, True), (1, True)],
      pthread = False, streams = [Some 0, Some 0, Some 1],
      descriptors = [Some \<lparr>d_tty = True, d_lines = [Passes]\<rparr>,
                     Some \<lparr>d_tty = False, d_lines = [Passes]\<rparr>],
      disk = (\<lambda>name. None), cancel_requested = False\<rparr>"

text \<open>
  The collaborators when the system has no thread to give: \<open>pthread_create\<close> answers
  with the error number 11 (\<open>EAGAIN\<close>).
\<close>

definition engine_without_threads :: collaborators where
  "engine_without_threads = engine\<lparr>pthread_create := (\<lambda>attr s. 11)\<rparr>"


section \<open>The default input during a run\<close>

text \<open>
  Two situations of a session that runs with the collaborators of the spec: the
  default input is the only entry of the stack, as the stream \<open>f1\<close> that was opened
  on the descriptor \<open>d\<close> of the caller's stream \<open>f0\<close>; and that entry has been
  popped.
\<close>

definition default_pushed :: "FILE \<Rightarrow> FILE \<Rightarrow> fd \<Rightarrow> clish_shell \<Rightarrow> bool" where
  "default_pushed f0 f1 d s =
     (current_file s = [(f1, True)] \<and> istream s = f1 \<and> f0 \<noteq> f1
      \<and> fileno s f1 = Some d \<and> fileno s f0 = Some d \<and> descriptor_of s d \<noteq> None)"

definition default_popped :: "FILE \<Rightarrow> fd \<Rightarrow> clish_shell \<Rightarrow> bool" where
  "default_popped f0 d s =
     (current_file s = [] \<and> fileno s f0 = Some d \<and> descriptor_of s d = None)"

text \<open>The lines that are still to be read from a descriptor.\<close>

definition pending_lines :: "clish_shell \<Rightarrow> fd \<Rightarrow> dispatch list" where
  "pending_lines s d = (case descriptor_of s d of None \<Rightarrow> [] | Some e \<Rightarrow> d_lines e)"



section \<open>Tilde expansion: a token with nothing before it\<close>

text \<open>
  C1. The claim: for every path, the expansion has every \<open>~\<close> replaced by the home
  directory and all other characters kept, also for a token at the very start of the
  string or right after another token. The code skips the tilde only under
  \<open>if (count)\<close>: for a token with \<open>count = 0\<close>, which is one at the start of the
  path or right after another token, the home directory is appended and the tilde
  stays in the segment that is copied later. With \<open>HOME=/home/u\<close> the path
  \<open>~/.clish\<close> becomes \<open>/home/u~/.clish\<close>, where the claim has \<open>/home/u/.clish\<close>.
\<close>

theorem tilde_expand_keeps_leading_tilde:
  "clish_shell_tilde_expand (Some ''/home/u'') ''~/.clish'' = Some ''/home/u~/.clish''
   \<and> tilde_replaced (Some ''/home/u'') ''~/.clish'' = ''/home/u/.clish''
   \<and> clish_shell_tilde_expand (Some ''/home/u'') ''a~~b'' = Some ''a/home/u/home/u~b''
   \<and> tilde_replaced (Some ''/home/u'') ''a~~b'' = ''a/home/u/home/ub''"
  by (simp add: clish_shell_tilde_expand_def tilde_replaced_def lub_string_catn_def
      lub_string_cat_def)

text \<open>
  A token that has a character other than \<open>~\<close> right before it is met with
  \<open>count\<close> not 0 and is replaced. So for a path in which every token is of that
  kind, as in the default path, the expansion is the one the spec describes.
\<close>

lemma chars_of_catn:
  "chars_of (lub_string_catn result (Some t) n) =
     chars_of result @ take (if n < 0 then length t else nat n) t"
  by (simp add: lub_string_catn_def chars_of_def split: option.splits)

lemma chars_of_cat:
  "chars_of (lub_string_cat result home) = chars_of result @ chars_of home"
  by (simp add: lub_string_cat_def lub_string_catn_def chars_of_def split: option.splits)

lemma tilde_replaced_Cons:
  "tilde_replaced home (c # cs) =
     (if c = CHR ''~'' then chars_of home else [c]) @ tilde_replaced home cs"
  by (simp add: tilde_replaced_def chars_of_def)

lemma tilde_scan_preceded:
  assumes "tokens_preceded (count \<noteq> 0) rest" and "0 \<le> count" and "path = pre @ rest"
    and "segment + nat count = length pre" and "CHR ''~'' \<notin> set (drop segment pre)"
  shows "chars_of (tilde_scan home path rest segment count result) =
           chars_of result @ drop segment pre @ tilde_replaced home rest"
  using assms
proof (induction rest arbitrary: pre segment count result)
  case Nil
  then have "length (drop segment pre) = nat count" by simp
  then have "take (nat count) (drop segment pre) = drop segment pre" by simp
  with Nil show ?case
    by (auto simp: chars_of_catn tilde_replaced_def)
next
  case (Cons c cs)
  have len: "length (drop segment pre) = nat count" using Cons.prems(4) by simp
  have seg: "segment \<le> length pre" using Cons.prems(4) by simp
  show ?case
  proof (cases "c = CHR ''~''")
    case True
    with Cons.prems(1) have nz: "count \<noteq> 0" and rest: "tokens_preceded False cs" by auto
    have tk: "take (nat count) (drop segment path) = drop segment pre"
      using len seg Cons.prems(3) by simp
    have "chars_of (tilde_scan home path cs (segment + nat (count + 1)) 0
             (lub_string_cat (lub_string_catn result (Some (drop segment path)) count) home)) =
          chars_of (lub_string_cat (lub_string_catn result (Some (drop segment path)) count) home)
            @ drop (segment + nat (count + 1)) (pre @ [c]) @ tilde_replaced home cs"
    proof (rule Cons.IH)
      show "tokens_preceded ((0::int) \<noteq> 0) cs" using rest by simp
      show "(0::int) \<le> 0" by simp
      show "path = (pre @ [c]) @ cs" using Cons.prems(3) by simp
      show "segment + nat (count + 1) + nat 0 = length (pre @ [c])"
        using Cons.prems(2,4) by (simp add: nat_add_distrib)
      show "CHR ''~'' \<notin> set (drop (segment + nat (count + 1)) (pre @ [c]))"
        using Cons.prems(2,4) by (simp add: nat_add_distrib)
    qed
    moreover have "drop (segment + nat (count + 1)) (pre @ [c]) = []"
      using Cons.prems(2,4) by (simp add: nat_add_distrib)
    ultimately show ?thesis
      using True nz Cons.prems(2) tk
      by (simp add: chars_of_cat chars_of_catn tilde_replaced_Cons)
  next
    case False
    have "chars_of (tilde_scan home path cs segment (count + 1) result) =
          chars_of result @ drop segment (pre @ [c]) @ tilde_replaced home cs"
    proof (rule Cons.IH)
      show "tokens_preceded (count + 1 \<noteq> 0) cs" using Cons.prems(1,2) False by simp
      show "0 \<le> count + 1" using Cons.prems(2) by simp
      show "path = (pre @ [c]) @ cs" using Cons.prems(3) by simp
      show "segment + nat (count + 1) = length (pre @ [c])"
        using Cons.prems(2,4) by (simp add: nat_add_distrib)
      show "CHR ''~'' \<notin> set (drop segment (pre @ [c]))"
        using Cons.prems(5) False seg by simp
    qed
    with False seg show ?thesis by (simp add: tilde_replaced_Cons)
  qed
qed

lemma tilde_expand_preceded_tokens:
  "tokens_preceded False path \<Longrightarrow>
     chars_of (clish_shell_tilde_expand home path) = tilde_replaced home path"
  using tilde_scan_preceded [of 0 path path "[]" 0 home None]
  by (simp add: clish_shell_tilde_expand_def chars_of_def)

lemma default_path_tokens_preceded: "tokens_preceded False default_path"
  by (simp add: default_path_def)

section \<open>Configuration discovery: what reaches the loader\<close>

lemma strrchr_None: "strrchr s c = None \<longleftrightarrow> c \<notin> set s"
  by (induction s) (auto split: option.splits)

lemma strrchr_absent: "c \<notin> set s \<Longrightarrow> strrchr s c = None"
  by (simp add: strrchr_None)

lemma strrchr_append: "c \<notin> set t \<Longrightarrow> strrchr (p @ c # t) c = Some (c # t)"
  by (induction p) (simp_all add: strrchr_absent)

lemma strrchr_suffix:
  "strrchr s c = Some r \<Longrightarrow> \<exists>p t. s = p @ c # t \<and> r = c # t \<and> c \<notin> set t"
proof (induction s)
  case Nil
  then show ?case by simp
next
  case (Cons x xs)
  show ?case
  proof (cases "strrchr xs c")
    case None
    with Cons.prems have "x = c" "r = x # xs" by (auto split: if_splits)
    moreover from None have "c \<notin> set xs" by (simp add: strrchr_None)
    ultimately show ?thesis by blast
  next
    case (Some a)
    with Cons.prems have "strrchr xs c = Some r" by simp
    from Cons.IH [OF this] obtain p t where "xs = p @ c # t" "r = c # t" "c \<notin> set t"
      by blast
    then have "x # xs = (x # p) @ c # t" by simp
    with \<open>r = c # t\<close> \<open>c \<notin> set t\<close> show ?thesis by blast
  qed
qed

text \<open>The test of the code on a name is the test "the name ends in \<open>.xml\<close>".\<close>

lemma xml_extension_iff:
  "(strrchr d_name CHR ''.'' = Some ''.xml'') = (\<exists>stem. d_name = stem @ ''.xml'')"
proof
  assume "strrchr d_name CHR ''.'' = Some ''.xml''"
  from strrchr_suffix [OF this] show "\<exists>stem. d_name = stem @ ''.xml''" by auto
next
  assume "\<exists>stem. d_name = stem @ ''.xml''"
  then obtain stem where "d_name = stem @ CHR ''.'' # ''xml''" by auto
  then show "strrchr d_name CHR ''.'' = Some ''.xml''"
    using strrchr_append [of "CHR ''.''" "''xml''" stem] by simp
qed

lemma load_entries_fold:
  "load_entries xml_read dirname entries this =
     fold (\<lambda>f s. snd (xml_read s (Some f)))
       (map (\<lambda>n. dirname @ ''/'' @ n) (filter (\<lambda>n. \<exists>stem. n = stem @ ''.xml'') entries))
       this"
proof (induction entries arbitrary: this)
  case Nil
  show ?case by simp
next
  case (Cons n entries)
  show ?case
  proof (cases "\<exists>stem. n = stem @ ''.xml''")
    case True
    then have ext: "strrchr n CHR ''.'' = Some ''.xml''" by (simp only: xml_extension_iff)
    have "load_entries xml_read dirname (n # entries) this =
            load_entries xml_read dirname entries
              (snd (xml_read this (Some (dirname @ ''/'' @ n))))"
      using ext by (simp add: lub_string_cat_def lub_string_catn_def)
    also have "\<dots> = fold (\<lambda>f s. snd (xml_read s (Some f)))
       (map (\<lambda>n. dirname @ ''/'' @ n) (filter (\<lambda>n. \<exists>stem. n = stem @ ''.xml'') entries))
         (snd (xml_read this (Some (dirname @ ''/'' @ n))))"
      by (rule Cons.IH)
    finally show ?thesis by (simp only: filter.simps True if_True list.map fold_simps)
  next
    case False
    then have ext: "strrchr n CHR ''.'' \<noteq> Some ''.xml''" unfolding xml_extension_iff .
    have "load_entries xml_read dirname (n # entries) this =
            load_entries xml_read dirname entries this"
      using ext by (cases "strrchr n CHR ''.''") auto
    then show ?thesis by (simp only: filter.simps False if_False Cons.IH)
  qed
qed

lemma load_dirs_fold:
  "load_dirs dir_entries xml_read dirnames this =
     fold (\<lambda>f s. snd (xml_read s (Some f)))
       (concat (map (\<lambda>d. case dir_entries d of
                            None \<Rightarrow> []
                          | Some es \<Rightarrow> map (\<lambda>n. d @ ''/'' @ n)
                                         (filter (\<lambda>n. \<exists>stem. n = stem @ ''.xml'') es))
                    dirnames))
       this"
  by (induction dirnames arbitrary: this) (simp_all add: load_entries_fold split: option.splits)

text \<open>
  C5. Whatever the loader does and answers, \<open>clish_shell_load_files\<close> calls it once
  for each entry whose name ends in \<open>.xml\<close> of each directory of the path that can be
  opened, in order, with the name \<open>directory @ "/" @ entry\<close>, and for nothing else;
  the answer of the loader is dropped, so a failure on one file stops nothing. The
  suffix test is on characters, so it is case-sensitive, and it is on the suffix
  after the last dot, so \<open>foo.xml.bak\<close> does not pass.
\<close>

theorem load_files_passes_exactly_xml:
  assumes "clish_shell_tilde_expand (getenv ''HOME'') (search_path getenv) = Some buffer"
  shows "clish_shell_load_files getenv dir_entries xml_read this =
     Some (fold (\<lambda>f s. snd (xml_read s (Some f)))
       (concat (map (\<lambda>d. case dir_entries d of
                            None \<Rightarrow> []
                          | Some es \<Rightarrow> map (\<lambda>n. d @ ''/'' @ n)
                                         (filter (\<lambda>n. \<exists>stem. n = stem @ ''.xml'') es))
                    (strtok_all buffer '';'')))
       this)"
  using assms by (simp add: clish_shell_load_files_def load_dirs_fold)

theorem load_files_passes_exactly_xml_witness:
  "clish_shell_tilde_expand (example_getenv ''HOME'') (search_path example_getenv)
     = Some ''/etc/clish;/home/u/.clish''
   \<and> clish_shell_load_files example_getenv example_dir_entries failing_loader []
     = Some [Some ''/etc/clish/foo.xml'', Some ''/etc/clish/bar.xml'']"
  using load_files_passes_exactly_xml
    [of example_getenv "''/etc/clish;/home/u/.clish''" example_dir_entries failing_loader "[]"]
  by (simp add: example_getenv_def example_dir_entries_def failing_loader_def search_path_def
      default_path_def clish_shell_tilde_expand_def lub_string_cat_def lub_string_catn_def
      strtok_all_def)

section \<open>Unfolding the model on concrete sessions\<close>

lemmas libc_defs = fileno_def descriptor_of_def fdopen_def fopen_def fclose_def
  tinyrl__get_istream_def tinyrl__get_isatty_def tinyrl__set_istream_def

lemmas engine_defs = engine_def clish_shell_push_file_def clish_shell_pop_file_def
  clish_shell_readline_def

lemmas loop_defs = clish_shell_loop_def loop_def push_default_def loop_body_def
  worker_pass_def

lemmas thread_defs = clish_shell_thread_def clish_shell_thread_cleanup_def
  clish_shell_spawn_def clish_shell_wait_def clish_shell_spawn_and_wait_def
  PTHREAD_CANCELED_def

section \<open>Runs with the collaborators of the spec\<close>

lemma default_pushed_state [simp]:
  "default_pushed f0 f1 d (s\<lparr>state := x\<rparr>) = default_pushed f0 f1 d s"
  by (simp add: default_pushed_def fileno_def descriptor_of_def)

lemma readline_default_pushed:
  assumes "default_pushed f0 f1 d s" and "clish_shell_readline s = (r, s')"
  shows "default_pushed f0 f1 d s'"
  using assms
  by (auto simp: clish_shell_readline_def default_pushed_def fileno_def descriptor_of_def
      tinyrl__get_istream_def nth_list_update split: option.splits list.splits if_splits)

lemma pop_default_pushed:
  assumes "default_pushed f0 f1 d s"
  shows "fst (clish_shell_pop_file s) = False \<and> default_popped f0 d (snd (clish_shell_pop_file s))"
  using assms
  by (auto simp: clish_shell_pop_file_def default_pushed_def default_popped_def fileno_def
      descriptor_of_def fclose_def nth_list_update split: option.splits if_splits)

lemma body_default_pushed:
  assumes "default_pushed f0 f1 d s" and "loop_body engine True s = (r, s')"
  shows "if r then default_pushed f0 f1 d s' else default_popped f0 d s'"
proof -
  define s1 where "s1 = (if state s = SHELL_STATE_SCRIPT_ERROR \<and> tinyrl__get_isatty s = True
                  then s\<lparr>state := SHELL_STATE_READY\<rparr> else s)"
  have p1: "default_pushed f0 f1 d s1" using assms(1) by (simp add: s1_def)
  have body: "loop_body engine True s =
      (let p = (if state s1 \<noteq> SHELL_STATE_SCRIPT_ERROR then clish_shell_readline s1
                else (True, s1))
       in if fst p = False \<or> state (snd p) = SHELL_STATE_SCRIPT_ERROR
          then clish_shell_pop_file (snd p) else p)"
    by (simp add: loop_body_def s1_def engine_def Let_def split: prod.splits)
  show ?thesis
  proof (cases "state s1 \<noteq> SHELL_STATE_SCRIPT_ERROR")
    case True
    obtain r2 s2 where rl: "clish_shell_readline s1 = (r2, s2)"
      by (cases "clish_shell_readline s1")
    from readline_default_pushed [OF p1 rl] have p2: "default_pushed f0 f1 d s2" .
    show ?thesis
    proof (cases "r2 = False \<or> state s2 = SHELL_STATE_SCRIPT_ERROR")
      case True
      with \<open>state s1 \<noteq> SHELL_STATE_SCRIPT_ERROR\<close> rl body assms(2)
      have "clish_shell_pop_file s2 = (r, s')" by (simp add: Let_def)
      with pop_default_pushed [OF p2] show ?thesis by simp
    next
      case False
      with \<open>state s1 \<noteq> SHELL_STATE_SCRIPT_ERROR\<close> rl body assms(2)
      have "(r2, s2) = (r, s')" by (simp add: Let_def)
      with False p2 show ?thesis by simp
    qed
  next
    case False
    with body assms(2) have "clish_shell_pop_file s1 = (r, s')" by (simp add: Let_def)
    with pop_default_pushed [OF p1] show ?thesis by simp
  qed
qed

lemma loop_while_default_pushed:
  assumes "default_pushed f0 f1 d s" and "loop_while engine False fuel True s = Some r"
  shows "\<exists>s'. r = Returns s' \<and> default_popped f0 d s'"
  using assms
proof (induction fuel arbitrary: s)
  case 0
  then show ?case by simp
next
  case (Suc fuel)
  obtain r' s' where b: "loop_body engine True s = (r', s')" by (cases "loop_body engine True s")
  from body_default_pushed [OF Suc.prems(1) b]
  have inv: "if r' then default_pushed f0 f1 d s' else default_popped f0 d s'" .
  from Suc.prems(2) b have run: "loop_while engine False fuel r' s' = Some r" by simp
  show ?case
  proof (cases r')
    case True
    with inv run show ?thesis by (auto intro: Suc.IH)
  next
    case False
    with run have "r = Returns s'" by (cases fuel) auto
    with False inv show ?thesis by simp
  qed
qed

lemma push_default_pushed:
  assumes "current_file s = []" and "fileno s (istream s) = Some d"
    and "descriptor_of s d \<noteq> None"
  shows "default_pushed (istream s) (length (streams s)) d (push_default engine s)"
  using assms
  by (auto simp: push_default_def engine_def clish_shell_push_file_def fdopen_def
      tinyrl__set_istream_def tinyrl__get_istream_def default_pushed_def fileno_def
      descriptor_of_def nth_append split: option.splits if_splits)

lemma default_popped_after_run:
  assumes "current_file s = []" and "fileno s (istream s) = Some d"
    and "descriptor_of s d \<noteq> None" and "state s \<noteq> SHELL_STATE_CLOSING"
    and "clish_shell_loop engine fuel (Some s) = Some r"
  shows "\<exists>s'. r = Returns (True, Some s') \<and> current_file s' = []
           \<and> fileno s' (istream s) = Some d \<and> descriptor_of s' d = None"
proof -
  from assms(4,5) obtain x where
    run: "loop_while engine False fuel True (push_default engine s) = Some x"
    by (auto simp: clish_shell_loop_def loop_def Let_def split: option.splits)
  from loop_while_default_pushed [OF push_default_pushed [OF assms(1-3)] run]
  obtain s' where x: "x = Returns s'" and p: "default_popped (istream s) d s'" by blast
  from assms(4) run x
  have "clish_shell_loop engine fuel (Some s) = Some (Returns (True, Some s'))"
    by (simp add: clish_shell_loop_def loop_def Let_def)
  with assms(5) p show ?thesis by (auto simp: default_popped_def)
qed

text \<open>With the collaborators of the spec a run on a finite input comes to its end.\<close>

lemma pending_lines_state [simp]: "pending_lines (s\<lparr>state := x\<rparr>) d = pending_lines s d"
  by (simp add: pending_lines_def descriptor_of_def)

lemma readline_consumes:
  assumes "default_pushed f0 f1 d s" and "clish_shell_readline s = (True, s')"
  shows "length (pending_lines s' d) < length (pending_lines s d)"
  using assms
  by (auto simp: clish_shell_readline_def default_pushed_def fileno_def descriptor_of_def
      pending_lines_def tinyrl__get_istream_def split: option.splits list.splits if_splits)

lemma body_default_pushed_consumes:
  assumes "default_pushed f0 f1 d s" and "loop_body engine True s = (True, s')"
  shows "length (pending_lines s' d) < length (pending_lines s d)"
proof -
  define s1 where "s1 = (if state s = SHELL_STATE_SCRIPT_ERROR \<and> tinyrl__get_isatty s = True
                  then s\<lparr>state := SHELL_STATE_READY\<rparr> else s)"
  have p1: "default_pushed f0 f1 d s1" using assms(1) by (simp add: s1_def)
  have l1: "pending_lines s1 d = pending_lines s d" by (simp add: s1_def)
  have body: "loop_body engine True s =
      (let p = (if state s1 \<noteq> SHELL_STATE_SCRIPT_ERROR then clish_shell_readline s1
                else (True, s1))
       in if fst p = False \<or> state (snd p) = SHELL_STATE_SCRIPT_ERROR
          then clish_shell_pop_file (snd p) else p)"
    by (simp add: loop_body_def s1_def engine_def Let_def split: prod.splits)
  show ?thesis
  proof (cases "state s1 \<noteq> SHELL_STATE_SCRIPT_ERROR")
    case True
    obtain r2 s2 where rl: "clish_shell_readline s1 = (r2, s2)"
      by (cases "clish_shell_readline s1")
    from readline_default_pushed [OF p1 rl] have p2: "default_pushed f0 f1 d s2" .
    show ?thesis
    proof (cases "r2 = False \<or> state s2 = SHELL_STATE_SCRIPT_ERROR")
      case True
      with \<open>state s1 \<noteq> SHELL_STATE_SCRIPT_ERROR\<close> rl body assms(2)
      have "clish_shell_pop_file s2 = (True, s')" by (simp add: Let_def)
      with pop_default_pushed [OF p2] show ?thesis by simp
    next
      case False
      with \<open>state s1 \<noteq> SHELL_STATE_SCRIPT_ERROR\<close> rl body assms(2)
      have "(r2, s2) = (True, s')" by (simp add: Let_def)
      with rl have "clish_shell_readline s1 = (True, s')" by simp
      from readline_consumes [OF p1 this] l1 show ?thesis by simp
    qed
  next
    case False
    with body assms(2) have "clish_shell_pop_file s1 = (True, s')" by (simp add: Let_def)
    with pop_default_pushed [OF p1] show ?thesis by simp
  qed
qed

lemma loop_while_engine_returns:
  assumes "default_pushed f0 f1 d s" and "length (pending_lines s d) \<le> n"
  shows "\<exists>s'. loop_while engine False (Suc n) True s = Some (Returns s')"
  using assms
proof (induction n arbitrary: s)
  case 0
  obtain r s' where b: "loop_body engine True s = (r, s')" by (cases "loop_body engine True s")
  have "\<not> r"
  proof
    assume r
    with b body_default_pushed_consumes [OF "0.prems"(1), of s'] "0.prems"(2)
    show False by simp
  qed
  with b show ?case by simp
next
  case (Suc n)
  obtain r s' where b: "loop_body engine True s = (r, s')" by (cases "loop_body engine True s")
  show ?case
  proof (cases r)
    case False
    with b show ?thesis by simp
  next
    case True
    with b body_default_pushed_consumes [OF Suc.prems(1), of s'] Suc.prems(2)
    have len: "length (pending_lines s' d) \<le> n" by simp
    from body_default_pushed [OF Suc.prems(1) b] True have "default_pushed f0 f1 d s'" by simp
    from Suc.IH [OF this len] b True show ?thesis by simp
  qed
qed

lemma pending_lines_push_default:
  assumes "fileno s (istream s) = Some d" and "descriptor_of s d = Some e"
  shows "pending_lines (push_default engine s) d = d_lines e"
  using assms
  by (auto simp: push_default_def engine_def clish_shell_push_file_def fdopen_def
      tinyrl__set_istream_def tinyrl__get_istream_def pending_lines_def descriptor_of_def
      split: option.splits if_splits)

lemma engine_run_returns:
  assumes "current_file s = []" and "fileno s (istream s) = Some d"
    and "descriptor_of s d = Some e" and "state s \<noteq> SHELL_STATE_CLOSING"
  shows "\<exists>s'. clish_shell_loop engine (Suc (length (d_lines e))) (Some s) =
               Some (Returns (True, Some s'))"
proof -
  from assms(3) have "descriptor_of s d \<noteq> None" by simp
  from push_default_pushed [OF assms(1,2) this]
  have p: "default_pushed (istream s) (length (streams s)) d (push_default engine s)" .
  from pending_lines_push_default [OF assms(2,3)]
  have "length (pending_lines (push_default engine s) d) \<le> length (d_lines e)" by simp
  from loop_while_engine_returns [OF p this] obtain s' where
    "loop_while engine False (Suc (length (d_lines e))) True (push_default engine s) =
       Some (Returns s')" ..
  with assms(4) show ?thesis by (simp add: clish_shell_loop_def loop_def Let_def)
qed

section \<open>How a run returns\<close>

text \<open>A run in the caller tests no cancellation, so it ends by returning.\<close>

lemma loop_while_sync_returns:
  "loop_while c False fuel running s = Some r \<Longrightarrow> \<exists>s'. r = Returns s'"
proof (induction fuel arbitrary: running s)
  case 0
  then show ?case by (auto split: if_splits)
next
  case (Suc fuel)
  then show ?case by (auto split: if_splits prod.splits)
qed

lemma loop_sync_returns_true:
  "loop c fuel this False = Some r \<Longrightarrow> \<exists>s'. r = Returns (True, s')"
  by (auto simp: loop_def Let_def split: option.splits if_splits thread_step.splits
      dest: loop_while_sync_returns)

text \<open>A session that is not null is handed back by every function.\<close>

lemma loop_keeps_session:
  "loop c fuel (Some s) is_thread = Some (Returns (b, so)) \<Longrightarrow> \<exists>s'. so = Some s'"
  by (auto simp: loop_def Let_def split: option.splits if_splits thread_step.splits)

lemma thread_keeps_session:
  "clish_shell_thread c fuel (Some s) = Some (v, so) \<Longrightarrow> \<exists>s'. so = Some s'"
  by (auto simp: clish_shell_thread_def split: option.splits thread_step.splits
      dest: loop_keeps_session)

lemma wait_keeps_session:
  "clish_shell_wait c fuel (Some s) = Some (v, so) \<Longrightarrow> \<exists>s'. so = Some s'"
  by (auto simp: clish_shell_wait_def split: option.splits if_splits
      dest: thread_keeps_session)

lemma spawn_and_wait_keeps_session:
  "clish_shell_spawn_and_wait c fuel (Some s) attr = Some (v, so) \<Longrightarrow> \<exists>s'. so = Some s'"
  by (auto simp: clish_shell_spawn_and_wait_def clish_shell_spawn_def Let_def
      split: if_splits dest: wait_keeps_session)

text \<open>
  C2. The claim: the synchronous entry point returns a flag that is true unless the
  loop ended on error or cancellation, and false for a run that ends because of a
  script error. In the code \<open>_loop\<close> has one \<open>return\<close>, of \<open>BOOL_TRUE\<close>. What holds:
  whenever \<open>clish_shell_loop\<close> returns, it returns true, whatever the collaborators
  did and however the loop ended; and with the collaborators of the spec, on a
  session with an empty stack and an open default input, it does return, given one
  unit of fuel more than there are lines to read.
\<close>

theorem clish_shell_loop_flag_is_true:
  "(clish_shell_loop c fuel this = Some r \<longrightarrow> (\<exists>s'. r = Returns (True, s')))
   \<and> (current_file s = [] \<and> fileno s (istream s) = Some d \<and> descriptor_of s d = Some e
        \<and> state s \<noteq> SHELL_STATE_CLOSING \<longrightarrow>
      (\<exists>s'. clish_shell_loop engine (Suc (length (d_lines e))) (Some s) =
              Some (Returns (True, Some s'))))"
  unfolding clish_shell_loop_def
  by (auto dest: loop_sync_returns_true
      intro: engine_run_returns [unfolded clish_shell_loop_def])

theorem clish_shell_loop_flag_is_true_witness:
  "clish_shell_loop engine (Suc (Suc 0)) (Some (session False [Passes])) =
     Some (Returns (True, Some ((session False [Passes])
       \<lparr>istream := 1, current_file := [], streams := [Some 0, None],
        descriptors := [None]\<rparr>)))
   \<and> current_file (session False [Passes]) = []
   \<and> fileno (session False [Passes]) (istream (session False [Passes])) = Some 0
   \<and> descriptor_of (session False [Passes]) 0 = Some \<lparr>d_tty = False, d_lines = [Passes]\<rparr>
   \<and> state (session False [Passes]) \<noteq> SHELL_STATE_CLOSING"
  using clish_shell_loop_flag_is_true
    [of engine "Suc (Suc 0)" "Some (session False [Passes])"
        "Returns (True, Some ((session False [Passes])
       \<lparr>istream := 1, current_file := [], streams := [Some 0, None],
        descriptors := [None]\<rparr>))"
        "session False [Passes]" 0 "\<lparr>d_tty = False, d_lines = [Passes]\<rparr>"]
  by (simp add: loop_defs engine_defs libc_defs session_def)

text \<open>
  A script whose first line fails: the run ends on the script error after one pass,
  with the second line unread, and the flag is true.
\<close>

theorem script_error_run_returns_true_counterexample:
  "clish_shell_loop engine (Suc 0) (Some (session False [Fails, Passes])) =
     Some (Returns (True, Some ((session False [Fails, Passes])
       \<lparr>state := SHELL_STATE_SCRIPT_ERROR, istream := 1, current_file := [],
        streams := [Some 0, None], descriptors := [None]\<rparr>)))"
  by (simp add: loop_defs engine_defs libc_defs session_def)

section \<open>One pass of the loop after a script error\<close>

text \<open>
  The recovery of the code, at the top of a pass: a pass that starts in
  \<open>SCRIPT_ERROR\<close> on a tty sets the state to \<open>READY\<close> and reads the next line from
  the session as it is otherwise, with no pop before that read.
\<close>

lemma recovery_reads_before_any_pop:
  assumes "state s = SHELL_STATE_SCRIPT_ERROR" and "tinyrl__get_isatty s"
  shows "loop_body c running s =
           (let (running', s') = readline c (s\<lparr>state := SHELL_STATE_READY\<rparr>)
            in if running' = False \<or> state s' = SHELL_STATE_SCRIPT_ERROR
               then pop_file c s' else (running', s'))"
  using assms by (simp add: loop_body_def tinyrl__get_isatty_def split: prod.splits)

text \<open>
  C3. The claim: on a tty, after a dispatched line fails, the state goes to
  \<open>SCRIPT_ERROR\<close> and back to \<open>READY\<close> before the next line is read, and no entry
  of the input stack is popped. The code has that recovery at the top of a pass, under
  the comment that an interactive session does not automatically exit on error. But
  the test before the pop, \<open>running == BOOL_FALSE || state == SCRIPT_ERROR\<close>, comes
  right after the read and does not ask for the tty. So on a terminal whose first
  line fails, with a readline that moves the state to \<open>SCRIPT_ERROR\<close> for a failed
  line as the spec and the claim have it, the pass that read the line pops the only
  entry of the stack, the pop answers false and the loop is over: the session has
  ended on the error, the state is still \<open>SCRIPT_ERROR\<close>, and the second line is
  never read.
\<close>

theorem failed_line_on_tty_ends_session:
  "tinyrl__get_isatty (push_default engine (session True [Fails, Passes]))
   \<and> state (push_default engine (session True [Fails, Passes])) = SHELL_STATE_READY
   \<and> current_file (push_default engine (session True [Fails, Passes])) = [(1, True)]
   \<and> loop_body engine True (push_default engine (session True [Fails, Passes]))
     = (False, (session True [Fails, Passes])
          \<lparr>state := SHELL_STATE_SCRIPT_ERROR, istream := 1, current_file := [],
           streams := [Some 0, None], descriptors := [None]\<rparr>)
   \<and> clish_shell_loop engine (Suc 0) (Some (session True [Fails, Passes]))
     = Some (Returns (True, Some ((session True [Fails, Passes])
          \<lparr>state := SHELL_STATE_SCRIPT_ERROR, istream := 1, current_file := [],
           streams := [Some 0, None], descriptors := [None]\<rparr>)))"
  by (simp add: loop_defs engine_defs libc_defs session_def)

text \<open>
  C4. The claim: in a scripted session, after a dispatched line fails, the next read
  is suppressed and exactly one pop occurs on the next pass of the loop, and the loop
  ends exactly when that pop returns false. In the code the test before the pop
  follows the read in the same pass, so the pop for a failed line is made in the pass
  that read the line. What holds: a pass that starts in \<open>SCRIPT_ERROR\<close> on an input
  that is not a tty is one call of the pop and nothing else, and a run in the caller
  ends after that pass exactly when the pop returned false; and a pass whose read
  leaves the state \<open>SCRIPT_ERROR\<close> pops in that same pass.
\<close>

theorem script_error_pass_is_one_pop:
  "(state s = SHELL_STATE_SCRIPT_ERROR \<and> tinyrl__get_isatty s = False \<longrightarrow>
      loop_body c running s = pop_file c s
      \<and> loop_while c False (Suc fuel) True s =
          (if fst (pop_file c s) then loop_while c False fuel True (snd (pop_file c s))
           else Some (Returns (snd (pop_file c s)))))
   \<and> (state t \<noteq> SHELL_STATE_SCRIPT_ERROR
        \<and> state (snd (readline c t)) = SHELL_STATE_SCRIPT_ERROR \<longrightarrow>
      loop_body c running t = pop_file c (snd (readline c t)))"
  by (cases fuel) (auto simp: loop_body_def tinyrl__get_isatty_def split: prod.splits)

theorem script_error_pass_is_one_pop_witness:
  "state failed_script_on_terminal = SHELL_STATE_SCRIPT_ERROR
   \<and> tinyrl__get_isatty failed_script_on_terminal = False
   \<and> pop_file engine failed_script_on_terminal =
       (True, failed_script_on_terminal
          \<lparr>istream := 1, isatty := True, current_file := [(1, True)],
           streams := [Some 0, Some 0, None],
           descriptors := [Some \<lparr>d_tty = True, d_lines = [Passes]\<rparr>, None]\<rparr>)
   \<and> loop_body engine True failed_script_on_terminal =
       (True, failed_script_on_terminal
          \<lparr>istream := 1, isatty := True, current_file := [(1, True)],
           streams := [Some 0, Some 0, None],
           descriptors := [Some \<lparr>d_tty = True, d_lines = [Passes]\<rparr>, None]\<rparr>)
   \<and> loop_while engine False (Suc (Suc (Suc 0))) True failed_script_on_terminal =
       Some (Returns (failed_script_on_terminal
          \<lparr>state := SHELL_STATE_READY, istream := 1, isatty := True, current_file := [],
           streams := [Some 0, None, None], descriptors := [None, None]\<rparr>))
   \<and> state (push_default engine (session False [Fails, Passes])) \<noteq> SHELL_STATE_SCRIPT_ERROR
   \<and> state (snd (readline engine (push_default engine (session False [Fails, Passes]))))
       = SHELL_STATE_SCRIPT_ERROR
   \<and> loop_body engine True (push_default engine (session False [Fails, Passes])) =
       pop_file engine (snd (readline engine (push_default engine (session False [Fails, Passes]))))"
  using script_error_pass_is_one_pop
    [of failed_script_on_terminal engine True "Suc (Suc 0)"
        "push_default engine (session False [Fails, Passes])"]
  by (simp add: loop_defs engine_defs libc_defs session_def failed_script_on_terminal_def)

text \<open>
  A script whose first line fails: the pass that read the line makes the pop, the pop
  empties the stack and the loop is over; no pass follows in which a pop could occur.
\<close>

theorem failed_line_pops_in_same_pass_counterexample:
  "state (push_default engine (session False [Fails, Passes])) = SHELL_STATE_READY
   \<and> tinyrl__get_isatty (push_default engine (session False [Fails, Passes])) = False
   \<and> current_file (push_default engine (session False [Fails, Passes])) = [(1, True)]
   \<and> loop_body engine True (push_default engine (session False [Fails, Passes])) =
       (False, (session False [Fails, Passes])
          \<lparr>state := SHELL_STATE_SCRIPT_ERROR, istream := 1, current_file := [],
           streams := [Some 0, None], descriptors := [None]\<rparr>)
   \<and> loop_while engine False (Suc 0) True (push_default engine (session False [Fails, Passes])) =
       Some (Returns ((session False [Fails, Passes])
          \<lparr>state := SHELL_STATE_SCRIPT_ERROR, istream := 1, current_file := [],
           streams := [Some 0, None], descriptors := [None]\<rparr>))"
  by (simp add: loop_defs engine_defs libc_defs session_def)

section \<open>A null session\<close>

text \<open>
  C10. For a null session pointer every entry point returns at once, whatever the
  collaborators are and with no fuel at all, but not with one answer: \<open>Spawn\<close>
  returns -1 (and so does spawn-and-wait), the join returns false (0),
  run-from-file returns false, and the synchronous run returns true.
\<close>

theorem null_session_outcomes:
  "clish_shell_spawn c None attr = (- 1, None)
   \<and> clish_shell_wait c fuel None = Some (0, None)
   \<and> clish_shell_spawn_and_wait c fuel None attr = Some (- 1, None)
   \<and> from_file c fuel None is_thread attr filename = Some (Returns (False, None))
   \<and> clish_shell_loop c fuel None = Some (Returns (True, None))"
  by (simp add: clish_shell_spawn_def clish_shell_wait_def clish_shell_spawn_and_wait_def
      from_file_def clish_shell_loop_def loop_def)

section \<open>Running from a file\<close>

lemma fileno_fclose: "fileno (fclose f s) f = None"
  by (auto simp: fileno_def fclose_def split: option.splits)

lemma from_file_closes:
  assumes "fopen name s = (Some f, s1)"
    and "from_file c fuel (Some s) is_thread attr (Some name) = Some r"
  shows "\<exists>b s'. r = Returns (b, Some s') \<and> fileno s' f = None"
proof (cases is_thread)
  case True
  with assms obtain v so where
    sw: "clish_shell_spawn_and_wait c fuel (Some (tinyrl__set_istream f s1)) attr = Some (v, so)"
    and r: "r = Returns (v \<noteq> 0, map_option (fclose f) so)"
    by (auto simp: from_file_def split: option.splits)
  from spawn_and_wait_keeps_session [OF sw] obtain s' where "so = Some s'" ..
  with r show ?thesis by (auto simp: fileno_fclose)
next
  case False
  with assms obtain x where
    l: "loop c fuel (Some (tinyrl__set_istream f s1)) False = Some x"
    by (auto simp: from_file_def clish_shell_loop_def split: option.splits)
  from loop_sync_returns_true [OF l] obtain so where x: "x = Returns (True, so)" ..
  from loop_keeps_session [OF l [unfolded x]] obtain s' where so: "so = Some s'" ..
  from assms False l x so have "r = Returns (True, Some (fclose f s'))"
    by (simp add: from_file_def clish_shell_loop_def)
  then show ?thesis by (auto simp: fileno_fclose)
qed

text \<open>
  C6. When \<open>fopen\<close> fails, \<open>_from_file\<close> returns false and the session is the one it
  was given: nothing was pushed and the input stream of the line editor is the same.
  When \<open>fopen\<close> gives a stream, then however the run goes (in the caller or in a
  worker, to its end, to an error or to a cancellation), if \<open>_from_file\<close> returns,
  that stream is closed in the session it hands back.
\<close>

theorem from_file_open_failure_and_close:
  "(fst (fopen name s) = None \<longrightarrow>
      from_file c fuel (Some s) is_thread attr (Some name) = Some (Returns (False, Some s)))
   \<and> (fst (fopen name s) = Some f
        \<and> from_file c fuel (Some s) is_thread attr (Some name) = Some r \<longrightarrow>
      (\<exists>b s'. r = Returns (b, Some s') \<and> fileno s' f = None))"
proof (intro conjI impI)
  assume "fst (fopen name s) = None"
  then have "fopen name s = (None, s)"
    by (auto simp: fopen_def split: option.splits)
  then show "from_file c fuel (Some s) is_thread attr (Some name) = Some (Returns (False, Some s))"
    by (simp add: from_file_def)
next
  assume a: "fst (fopen name s) = Some f
        \<and> from_file c fuel (Some s) is_thread attr (Some name) = Some r"
  then obtain s1 where "fopen name s = (Some f, s1)" by (cases "fopen name s") auto
  with a show "\<exists>b s'. r = Returns (b, Some s') \<and> fileno s' f = None"
    by (blast intro: from_file_closes)
qed

theorem from_file_open_failure_and_close_witness:
  "fst (fopen ''missing'' session_with_script) = None
   \<and> from_file engine 0 (Some session_with_script) False None (Some ''missing'') =
       Some (Returns (False, Some session_with_script))
   \<and> fst (fopen ''run.clish'' session_with_script) = Some 1
   \<and> from_file engine (Suc (Suc 0)) (Some session_with_script) False None (Some ''run.clish'') =
       Some (Returns (True, Some (session_with_script
         \<lparr>state := SHELL_STATE_SCRIPT_ERROR, istream := 2, isatty := False,
          current_file := [], streams := [Some 0, None, None],
          descriptors := [Some \<lparr>d_tty = True, d_lines = []\<rparr>, None]\<rparr>)))
   \<and> fileno (session_with_script
         \<lparr>state := SHELL_STATE_SCRIPT_ERROR, istream := 2, isatty := False,
          current_file := [], streams := [Some 0, None, None],
          descriptors := [Some \<lparr>d_tty = True, d_lines = []\<rparr>, None]\<rparr>) 1 = None"
  using from_file_open_failure_and_close
      [of "''missing''" session_with_script engine 0 False None]
    from_file_open_failure_and_close
      [of "''run.clish''" session_with_script engine "Suc (Suc 0)" False None 1]
  by (simp add: from_file_def loop_defs engine_defs libc_defs session_with_script_def
      session_def script_disk_def)

section \<open>A worker that cannot be created\<close>

text \<open>
  C7. The claim: when the worker cannot be created, \<open>Spawn\<close>, spawn-and-wait and
  asynchronous run-from-file each report that as an outcome distinct from an
  ordinary false result. Spawn-and-wait has a branch for it,
  \<open>if (clish_shell_spawn(this, attr) < 0) return -1\<close>, but \<open>pthread_create\<close> reports
  a failure with an error number, which is above 0. With \<open>pthread_create\<close> answering
  11 (\<open>EAGAIN\<close>): \<open>Spawn\<close> returns 11; spawn-and-wait does not take its \<open>-1\<close>
  branch, joins a worker that does not exist and returns 0, its ordinary false;
  asynchronous run-from-file returns false for a script that exists, as it does for a
  file that cannot be opened.
\<close>

theorem spawn_failure_reported_as_false:
  "clish_shell_spawn engine_without_threads (Some session_with_script) None
     = (11, Some session_with_script)
   \<and> clish_shell_spawn_and_wait engine_without_threads 0 (Some session_with_script) None
     = Some (0, Some session_with_script)
   \<and> from_file engine_without_threads 0 (Some session_with_script) True None
       (Some ''run.clish'')
     = Some (Returns (False, Some (session_with_script
         \<lparr>istream := 1, isatty := False, streams := [Some 0, None],
          descriptors := [Some \<lparr>d_tty = True, d_lines = []\<rparr>, None]\<rparr>)))
   \<and> from_file engine_without_threads 0 (Some session_with_script) True None
       (Some ''missing'')
     = Some (Returns (False, Some session_with_script))"
  by (simp add: from_file_def thread_defs engine_without_threads_def engine_defs libc_defs
      session_with_script_def session_def script_disk_def)

section \<open>The default input and its descriptor\<close>

text \<open>
  C8. The claim: the resource under the default input stream is never closed by the
  engine, not even by the pop that unwinds the base entry of the stack. In the code
  \<open>_loop\<close> does not push the caller's stream: it opens a second stream on the same
  descriptor (\<open>fdopen(fileno(...))\<close>) and pushes that one with the flag true. What
  holds, with push, pop and readline as the spec describes them, for a session with
  an empty stack and an open default input: a run in the caller returns, given one
  unit of fuel more than there are lines to read; and whenever it returns, the
  caller's stream object has not been closed, the stack is empty, and the descriptor
  under the caller's stream is closed, by the pop of the base entry.
\<close>

theorem default_descriptor_closed_by_pop:
  assumes "current_file s = []" and "fileno s (istream s) = Some d"
    and "descriptor_of s d = Some e" and "state s \<noteq> SHELL_STATE_CLOSING"
  shows "(\<exists>s'. clish_shell_loop engine (Suc (length (d_lines e))) (Some s) =
                 Some (Returns (True, Some s')))
         \<and> (clish_shell_loop engine fuel (Some s) = Some r \<longrightarrow>
              (\<exists>s'. r = Returns (True, Some s') \<and> current_file s' = []
                 \<and> fileno s' (istream s) = Some d \<and> descriptor_of s' d = None))"
proof (intro conjI impI)
  show "\<exists>s'. clish_shell_loop engine (Suc (length (d_lines e))) (Some s) =
               Some (Returns (True, Some s'))"
    using assms by (rule engine_run_returns)
next
  assume "clish_shell_loop engine fuel (Some s) = Some r"
  moreover from assms(3) have "descriptor_of s d \<noteq> None" by simp
  ultimately show "\<exists>s'. r = Returns (True, Some s') \<and> current_file s' = []
      \<and> fileno s' (istream s) = Some d \<and> descriptor_of s' d = None"
    using assms(1,2,4) by (intro default_popped_after_run)
qed

theorem default_descriptor_closed_by_pop_witness:
  "current_file (session True [Passes]) = []
   \<and> fileno (session True [Passes]) (istream (session True [Passes])) = Some 0
   \<and> descriptor_of (session True [Passes]) 0 = Some \<lparr>d_tty = True, d_lines = [Passes]\<rparr>
   \<and> state (session True [Passes]) \<noteq> SHELL_STATE_CLOSING
   \<and> clish_shell_loop engine (Suc (Suc 0)) (Some (session True [Passes])) =
       Some (Returns (True, Some ((session True [Passes])
         \<lparr>istream := 1, current_file := [], streams := [Some 0, None],
          descriptors := [None]\<rparr>)))
   \<and> (\<exists>s'. Returns (True, Some ((session True [Passes])
         \<lparr>istream := 1, current_file := [], streams := [Some 0, None],
          descriptors := [None]\<rparr>)) = Returns (True, Some s')
         \<and> current_file s' = []
         \<and> fileno s' (istream (session True [Passes])) = Some 0
         \<and> descriptor_of s' 0 = None)"
  using default_descriptor_closed_by_pop
    [of "session True [Passes]" 0 "\<lparr>d_tty = True, d_lines = [Passes]\<rparr>" "Suc (Suc 0)"
        "Returns (True, Some ((session True [Passes])
         \<lparr>istream := 1, current_file := [], streams := [Some 0, None],
          descriptors := [None]\<rparr>))"]
  by (simp add: loop_defs engine_defs libc_defs session_def)

text \<open>
  A terminal session whose user ends the input at once: descriptor 0, the one under
  the caller's stream 0, is open before the run and closed after it.
\<close>

theorem default_descriptor_closed_counterexample:
  "fileno (session True []) (istream (session True [])) = Some 0
   \<and> descriptor_of (session True []) 0 = Some \<lparr>d_tty = True, d_lines = []\<rparr>
   \<and> clish_shell_loop engine (Suc 0) (Some (session True [])) =
       Some (Returns (True, Some ((session True [])
         \<lparr>istream := 1, current_file := [], streams := [Some 0, None],
          descriptors := [None]\<rparr>)))
   \<and> descriptor_of ((session True [])
         \<lparr>istream := 1, current_file := [], streams := [Some 0, None],
          descriptors := [None]\<rparr>) 0 = None"
  by (simp add: loop_defs engine_defs libc_defs session_def)

section \<open>Cancelling the worker\<close>

text \<open>
  When no cancellation lands inside its calls, the pass of a worker is the pass of a
  run in the caller.
\<close>

lemma worker_pass_when_calls_return:
  assumes "\<forall>u. cancelled_in c In_readline u = None"
    and "\<forall>u. cancelled_in c In_pop_file u = None"
  shows "worker_pass c running s = Returns (loop_body c running s)"
  using assms by (simp add: worker_pass_def loop_body_def Let_def split: prod.splits)







end
